theory Spec2Isabelle
  imports Complex_Main "HOL-Library.Word"
begin

section \<open>Intonation analysis of the entonation server\<close>

text \<open>
  A shallow embedding of the analysis core of the server: \<open>bufferToFloat32\<close>,
  \<open>amplificarAudio\<close> and \<open>analisarEntonacao\<close>.

  JavaScript numbers are modelled as \<^typ>\<open>real\<close>: every sample that reaches the
  analysis is \<open>k / 32768\<close> for a 16-bit integer \<open>k\<close>, and every accepted pitch is a
  finite number strictly inside its band, so no \<open>NaN\<close> or infinity takes part in the
  statistics. Rounding of the floating-point operations is not modelled. Counters
  and the score, which only ever hold small integers, are \<^typ>\<open>nat\<close> and \<^typ>\<open>int\<close>.
  A call that spreads an array into its arguments fails with a \<open>RangeError\<close> when the
  array has more elements than the engine can take as arguments; that capacity is
  the parameter \<open>maxArgs\<close> of the model. Other resource limits of the engine are
  outside the model.
\<close>

subsection \<open>PCM entry adapter\<close>

type_synonym byte = "8 word"

datatype error = RangeError

text \<open>
  \<open>buffer.readInt16LE(i)\<close> of Node: the two bytes at \<open>i\<close> and \<open>i + 1\<close>, low byte first,
  read as a two's complement 16-bit integer; a \<open>RangeError\<close> when either byte lies
  outside the buffer.
\<close>

definition readInt16LE :: "byte list \<Rightarrow> nat \<Rightarrow> error + int" where
  "readInt16LE buffer i =
     (if i + 1 < length buffer
      then Inr (sint (word_of_nat (unat (buffer ! i) + 256 * unat (buffer ! (i + 1))) :: 16 word))
      else Inl RangeError)"

text \<open>
  The loop \<open>for (let i = 0; i < buffer.length; i += 2)\<close> of \<open>bufferToFloat32\<close>, with
  the array \<open>output\<close> as accumulator.
\<close>

function bufferToFloat32_loop :: "byte list \<Rightarrow> nat \<Rightarrow> real list \<Rightarrow> error + real list" where
  "bufferToFloat32_loop buffer i output =
     (if i < length buffer
      then (case readInt16LE buffer i of
              Inl e \<Rightarrow> Inl e
            | Inr sample \<Rightarrow> bufferToFloat32_loop buffer (i + 2) (output @ [real_of_int sample / 32768]))
      else Inr output)"
  by pat_completeness auto
termination
  by (relation "measure (\<lambda>(buffer, i, output). length buffer - i)") auto

declare bufferToFloat32_loop.simps [simp del]

definition bufferToFloat32 :: "byte list \<Rightarrow> error + real list" where
  "bufferToFloat32 buffer = bufferToFloat32_loop buffer 0 []"

text \<open>The 16-bit sample that starts at byte \<open>i\<close>, for an in-bounds read.\<close>

definition sample_at :: "byte list \<Rightarrow> nat \<Rightarrow> int" where
  "sample_at buffer i =
     sint (word_of_nat (unat (buffer ! i) + 256 * unat (buffer ! (i + 1))) :: 16 word)"

subsection \<open>Strings\<close>

text \<open>
  A JavaScript string is a sequence of UTF-16 code units. The texts of the program
  are written here with their ASCII runs as literals and every other code unit by
  its number.
\<close>

type_synonym jsstring = "nat list"

definition ascii :: "string \<Rightarrow> jsstring" where
  "ascii s = map of_char s"

text \<open>
  \<open>String.prototype.trim\<close> removes, at both ends, the code units of the ECMAScript
  classes WhiteSpace and LineTerminator.
\<close>

definition isWhiteSpace :: "nat \<Rightarrow> bool" where
  "isWhiteSpace c =
     (c \<in> {0x9, 0xA, 0xB, 0xC, 0xD, 0x20, 0xA0, 0x1680, 0x2028, 0x2029, 0x202F, 0x205F,
           0x3000, 0xFEFF}
      \<or> (0x2000 \<le> c \<and> c \<le> 0x200A))"

definition trim :: "jsstring \<Rightarrow> jsstring" where
  "trim s = rev (dropWhile isWhiteSpace (rev (dropWhile isWhiteSpace s)))"

text \<open>The string literals of \<open>analisarEntonacao\<close>, in source order.\<close>

definition msg_insufficient :: jsstring where
  "msg_insufficient =
     [0x26A0, 0xFE0F] @ ascii '' N'' @ [0xE3] @ ascii ''o foi poss'' @ [0xED] @
     ascii ''vel analisar a entona'' @ [0xE7, 0xE3] @ ascii ''o. Verifique:'' @
     [0xA, 0x2022] @ ascii '' Fale mais alto'' @ [0xA, 0x2022] @
     ascii '' Grave por mais tempo (m'' @ [0xED] @ ascii ''nimo 3-5 segundos)'' @
     [0xA, 0x2022] @ ascii '' Verifique se o microfone est'' @ [0xE1] @
     ascii '' funcionando''"

definition msg_range_flat :: jsstring where
  "msg_range_flat =
     ascii ''Sua entona'' @ [0xE7, 0xE3] @ ascii ''o est'' @ [0xE1] @
     ascii '' muito reta (mon'' @ [0xF3] @
     ascii ''tona). Tente variar mais a altura da voz. ''"

definition msg_range_good :: jsstring where
  "msg_range_good =
     ascii ''Boa varia'' @ [0xE7, 0xE3] @ ascii ''o de entona'' @ [0xE7, 0xE3] @
     ascii ''o. ''"

definition msg_range_great :: jsstring where
  "msg_range_great =
     [0x2728] @ ascii '' '' @ [0xD3] @ ascii ''tima varia'' @ [0xE7, 0xE3] @
     ascii ''o tonal! ''"

definition msg_sd_shaky :: jsstring where
  "msg_sd_shaky =
     ascii ''Sua voz est'' @ [0xE1] @ ascii '' tremida ou inst'' @ [0xE1] @ ascii ''vel. ''"

definition msg_sd_robotic :: jsstring where
  "msg_sd_robotic =
     ascii ''Voz rob'' @ [0xF3] @ ascii ''tica demais. Tente ser mais expressivo. ''"

definition msg_sd_stable :: jsstring where
  "msg_sd_stable =
     [0xD3] @ ascii ''tima estabilidade na voz. ''"

definition msg_slope_rising :: jsstring where
  "msg_slope_rising =
     ascii ''Voc'' @ [0xEA] @ ascii '' terminou a frase subindo (soa como pergunta). ''"

definition msg_slope_falling :: jsstring where
  "msg_slope_falling =
     ascii ''Voc'' @ [0xEA] @ ascii '' terminou a frase caindo (natural para afirma'' @
     [0xE7, 0xF5] @ ascii ''es).''"

definition msg_slope_neutral :: jsstring where
  "msg_slope_neutral =
     ascii ''Finaliza'' @ [0xE7, 0xE3] @ ascii ''o neutra.''"
subsection \<open>Amplitude normalisation\<close>

text \<open>
  \<open>Math.max(...xs)\<close> passes every element of \<open>xs\<close> as an argument of the call. The
  engine throws a \<open>RangeError\<close> when there are more arguments than it can hold, which
  depends on the engine and on its stack: \<open>maxArgs\<close> is that capacity. Otherwise the
  call returns \<open>-Infinity\<close> for no argument and the greatest argument for some.
\<close>

datatype jsnum = MinusInfinity | Num real

definition spread_overflow :: "nat \<Rightarrow> real list \<Rightarrow> bool" where
  "spread_overflow maxArgs xs = (maxArgs < length xs)"

definition Math_max :: "nat \<Rightarrow> real list \<Rightarrow> error + jsnum" where
  "Math_max maxArgs xs =
     (if spread_overflow maxArgs xs then Inl RangeError
      else if xs = [] then Inr MinusInfinity
      else Inr (Num (Max (set xs))))"

fun num_less :: "jsnum \<Rightarrow> real \<Rightarrow> bool" where
  "num_less MinusInfinity b = True"
| "num_less (Num a) b = (a < b)"

definition amplificarAudio :: "real list \<Rightarrow> real \<Rightarrow> real list" where
  "amplificarAudio floatSamples gain =
     map (\<lambda>s. let amplified = s * gain in max (- 1) (min 1 amplified)) floatSamples"

text \<open>
  The first step of \<open>analisarEntonacao\<close>: the value of \<open>samples\<close>, or the
  \<open>RangeError\<close> of \<open>Math.max(...floatSamples.map(Math.abs))\<close>.
\<close>

definition analisarEntonacao_samples :: "nat \<Rightarrow> real list \<Rightarrow> error + real list" where
  "analisarEntonacao_samples maxArgs floatSamples =
     (case Math_max maxArgs (map abs floatSamples) of
        Inl e \<Rightarrow> Inl e
      | Inr maxAmplitude \<Rightarrow>
          Inr (if num_less maxAmplitude 0.1 then amplificarAudio floatSamples 3.0
               else floatSamples))"

subsection \<open>Pitch contour extraction\<close>

text \<open>
  The pitch detector \<open>Pitchfinder.YIN({ sampleRate: 16000 })\<close> is a library function:
  it is a parameter \<open>detectPitch\<close> of the model, from a window to a frequency or
  \<open>null\<close> (\<open>None\<close>). A result that is not a finite number fails both comparisons
  of the acceptance test, as \<open>null\<close> does.
\<close>

definition windowSize :: nat where
  "windowSize = 512"

definition hop :: nat where
  "hop = 256"

text \<open>
  \<open>if (pitch && pitch > lo && pitch < hi) pitches.push(pitch)\<close>: \<open>null\<close> and \<open>0\<close> are
  falsy.
\<close>

definition push_accepted :: "real \<Rightarrow> real \<Rightarrow> real option \<Rightarrow> real list \<Rightarrow> real list" where
  "push_accepted lo hi pitch pitches =
     (case pitch of
        None \<Rightarrow> pitches
      | Some p \<Rightarrow> if p \<noteq> 0 \<and> p > lo \<and> p < hi then pitches @ [p] else pitches)"

text \<open>
  The loop \<open>for (let i = 0; i < samples.length - windowSize; i += hop)\<close>, which the
  function runs once with the band \<open>(40, 600)\<close> and, when fewer than five pitches
  were found, once more with the band \<open>(30, 800)\<close>. The difference
  \<open>samples.length - windowSize\<close> may be negative, so the test is made on integers.
\<close>

function analisarEntonacao_loop ::
  "(real list \<Rightarrow> real option) \<Rightarrow> real \<Rightarrow> real \<Rightarrow> real list \<Rightarrow> nat \<Rightarrow> real list \<Rightarrow> real list" where
  "analisarEntonacao_loop detectPitch lo hi samples i pitches =
     (if int i < int (length samples) - int windowSize
      then (let slice = take windowSize (drop i samples);
                pitch = detectPitch slice
            in analisarEntonacao_loop detectPitch lo hi samples (i + hop)
                 (push_accepted lo hi pitch pitches))
      else pitches)"
  by pat_completeness auto
termination
  by (relation "measure (\<lambda>(detectPitch, lo, hi, samples, i, pitches). length samples - i)")
     (auto simp: hop_def windowSize_def)

declare analisarEntonacao_loop.simps [simp del]

text \<open>
  The window start indices that the loop header visits from \<open>i\<close> on, for a waveform
  of \<open>len\<close> samples.
\<close>

function window_starts :: "nat \<Rightarrow> nat \<Rightarrow> nat list" where
  "window_starts len i =
     (if int i < int len - int windowSize then i # window_starts len (i + hop) else [])"
  by pat_completeness auto
termination
  by (relation "measure (\<lambda>(len, i). len - i)") (auto simp: hop_def windowSize_def)

declare window_starts.simps [simp del]

text \<open>The contour after the first scan, and after the conditional second scan.\<close>

definition phase1 :: "(real list \<Rightarrow> real option) \<Rightarrow> real list \<Rightarrow> real list" where
  "phase1 detectPitch samples = analisarEntonacao_loop detectPitch 40 600 samples 0 []"

definition analisarEntonacao_pitches :: "(real list \<Rightarrow> real option) \<Rightarrow> real list \<Rightarrow> real list" where
  "analisarEntonacao_pitches detectPitch samples =
     (let pitches = phase1 detectPitch samples
      in if length pitches < 5
         then analisarEntonacao_loop detectPitch 30 800 samples 0 pitches
         else pitches)"

subsection \<open>Features, score and feedback\<close>

text \<open>
  The metrics of the contour. \<open>Math.min(...pitches)\<close> and \<open>Math.max(...pitches)\<close> have
  at least five arguments here, so they are the least and the greatest element when
  they return; \<open>analisarEntonacao\<close> below holds the case where the spread of
  \<open>pitches\<close> exceeds the capacity of the engine.
\<close>

definition range_of :: "real list \<Rightarrow> real" where
  "range_of pitches = Max (set pitches) - Min (set pitches)"

definition mean_of :: "real list \<Rightarrow> real" where
  "mean_of pitches = fold (\<lambda>b a. a + b) pitches 0 / real (length pitches)"

definition variance_of :: "real list \<Rightarrow> real" where
  "variance_of pitches =
     fold (\<lambda>b a. a + (b - mean_of pitches) ^ 2) pitches 0 / real (length pitches)"

definition sd_of :: "real list \<Rightarrow> real" where
  "sd_of pitches = sqrt (variance_of pitches)"

definition slope_of :: "real list \<Rightarrow> real" where
  "slope_of pitches = (pitches ! (length pitches - 1) - pitches ! 0) / real (length pitches)"

text \<open>
  \<open>parseFloat(x.toFixed(d))\<close>: \<open>x\<close> rounded to \<open>d\<close> decimal places, a tie going away
  from zero.
\<close>

definition toFixed :: "nat \<Rightarrow> real \<Rightarrow> real" where
  "toFixed d x = sgn x * real_of_int \<lfloor>\<bar>x\<bar> * 10 ^ d + 1 / 2\<rfloor> / 10 ^ d"

text \<open>
  The object that \<open>analisarEntonacao\<close> returns. A field that the object does not have
  is \<open>None\<close>. The field \<open>range\<close> is \<open>range_val\<close>.
\<close>

record AnalysisResult =
  score :: int
  feedback :: jsstring
  range_val :: "real option"
  sd :: "real option"
  slope :: "real option"
  pitchCount :: "nat option"
  meanPitch :: "real option"

text \<open>
  The rest of \<open>analisarEntonacao\<close>, from the test \<open>pitches.length < 5\<close> on: the object
  that is returned when the two spreads of \<open>pitches\<close> do not throw.
\<close>

definition analisarEntonacao_result :: "real list \<Rightarrow> AnalysisResult" where
  "analisarEntonacao_result pitches =
     (if length pitches < 5
      then \<lparr>score = 0, feedback = msg_insufficient, range_val = None, sd = None,
            slope = None, pitchCount = None, meanPitch = None\<rparr>
      else
        (let range_v = range_of pitches;
             mean_v = mean_of pitches;
             sd_v = sd_of pitches;
             slope_v = slope_of pitches;
             score0 = 0;
             score1 = score0 + (if range_v < 20 then 10 else if range_v < 60 then 30 else 40);
             score2 = score1 + (if sd_v < 10 then 10 else if sd_v < 40 then 30 else 20);
             score3 = score2 + (if slope_v < - 0.1 then 30 else if slope_v < 0.05 then 20 else 10);
             feedback0 = [];
             feedback1 = feedback0 @
               (if range_v < 20 then msg_range_flat
                else if range_v < 60 then msg_range_good
                else msg_range_great);
             feedback2 = feedback1 @
               (if sd_v > 40 then msg_sd_shaky
                else if sd_v < 10 then msg_sd_robotic
                else msg_sd_stable);
             feedback3 = feedback2 @
               (if slope_v > 0.1 then msg_slope_rising
                else if slope_v < - 0.1 then msg_slope_falling
                else msg_slope_neutral)
         in \<lparr>score = min 100 (max 0 score3),
             feedback = trim feedback3,
             range_val = Some (toFixed 2 range_v),
             sd = Some (toFixed 2 sd_v),
             slope = Some (toFixed 4 slope_v),
             pitchCount = Some (length pitches),
             meanPitch = Some (toFixed 2 mean_v)\<rparr>))"

text \<open>
  The whole function: the spread of \<open>floatSamples\<close> may throw at the start, and the
  spreads of \<open>pitches\<close> may throw once five pitches were found.
\<close>

definition analisarEntonacao ::
  "nat \<Rightarrow> (real list \<Rightarrow> real option) \<Rightarrow> real list \<Rightarrow> error + AnalysisResult" where
  "analisarEntonacao maxArgs detectPitch floatSamples =
     (case analisarEntonacao_samples maxArgs floatSamples of
        Inl e \<Rightarrow> Inl e
      | Inr samples \<Rightarrow>
          (let pitches = analisarEntonacao_pitches detectPitch samples
           in if 5 \<le> length pitches \<and> spread_overflow maxArgs pitches then Inl RangeError
              else Inr (analisarEntonacao_result pitches)))"

subsection \<open>The rubric of the specification\<close>

text \<open>
  The three rows of the scoring table as the specification writes them: the points
  of a range, of a standard deviation and of a slope. A row \<open>20 to 59\<close> is read as
  \<open>20 \<le> x < 60\<close>, the complement of its neighbours.
\<close>

definition rubric_range :: "real \<Rightarrow> int" where
  "rubric_range r =
     (if r < 20 then 10 else if 20 \<le> r \<and> r < 60 then 30 else if 60 \<le> r then 40 else 0)"

definition rubric_sd :: "real \<Rightarrow> int" where
  "rubric_sd s =
     (if s < 10 then 10 else if 10 \<le> s \<and> s < 40 then 30 else if 40 \<le> s then 20 else 0)"

definition rubric_slope :: "real \<Rightarrow> int" where
  "rubric_slope k =
     (if k < - 0.1 then 30 else if - 0.1 \<le> k \<and> k < 0.05 then 20 else if 0.05 \<le> k then 10 else 0)"

text \<open>
  The number of windows of one scan, for a waveform of \<open>len\<close> samples: as the
  specification gives it, and as the loop header yields it.
\<close>

definition spec_window_count :: "nat \<Rightarrow> nat" where
  "spec_window_count len = (if 512 \<le> len then (len - 512) div 256 + 1 else 0)"

definition window_count :: "nat \<Rightarrow> nat" where
  "window_count len = (if 512 < len then (len - 513) div 256 + 1 else 0)"

subsection \<open>Properties of the PCM entry adapter\<close>

lemma sample_at_bounds: "- 32768 \<le> sample_at buffer i \<and> sample_at buffer i < 32768"
proof -
  let ?w = "word_of_nat (unat (buffer ! i) + 256 * unat (buffer ! (i + 1))) :: 16 word"
  have "- (2 ^ (LENGTH(16) - 1)) \<le> sint ?w" by (rule sint_ge)
  moreover have "sint ?w < 2 ^ (LENGTH(16) - 1)" by (rule sint_lt)
  ultimately show ?thesis by (simp add: sample_at_def)
qed

lemma readInt16LE_in_bounds:
  "i + 1 < length buffer \<Longrightarrow> readInt16LE buffer i = Inr (sample_at buffer i)"
  by (simp add: readInt16LE_def sample_at_def)

lemma readInt16LE_out_of_bounds:
  "\<not> i + 1 < length buffer \<Longrightarrow> readInt16LE buffer i = Inl RangeError"
  by (simp add: readInt16LE_def)

lemma bufferToFloat32_loop_even:
  "length buffer = 2 * n \<Longrightarrow> k \<le> n \<Longrightarrow>
   bufferToFloat32_loop buffer (2 * k) acc =
     Inr (acc @ map (\<lambda>j. real_of_int (sample_at buffer (2 * j)) / 32768) [k..<n])"
proof (induction "n - k" arbitrary: k acc)
  case 0
  then have "k = n" by simp
  with 0 show ?case by (subst bufferToFloat32_loop.simps) simp
next
  case (Suc d)
  then have lt: "k < n" by simp
  with Suc.prems have rd: "readInt16LE buffer (2 * k) = Inr (sample_at buffer (2 * k))"
    by (intro readInt16LE_in_bounds) simp
  have step: "bufferToFloat32_loop buffer (2 * k) acc =
      bufferToFloat32_loop buffer (2 * Suc k) (acc @ [real_of_int (sample_at buffer (2 * k)) / 32768])"
    using lt Suc.prems rd by (subst bufferToFloat32_loop.simps) simp
  have "d = n - Suc k" using Suc.hyps by simp
  from Suc.hyps(1) [OF this Suc.prems(1)] lt
  have "bufferToFloat32_loop buffer (2 * Suc k) (acc @ [real_of_int (sample_at buffer (2 * k)) / 32768]) =
      Inr ((acc @ [real_of_int (sample_at buffer (2 * k)) / 32768]) @
           map (\<lambda>j. real_of_int (sample_at buffer (2 * j)) / 32768) [Suc k..<n])"
    by simp
  with step lt show ?case by (simp add: upt_conv_Cons)
qed

lemma bufferToFloat32_loop_odd:
  "length buffer = 2 * n + 1 \<Longrightarrow> k \<le> n \<Longrightarrow>
   bufferToFloat32_loop buffer (2 * k) acc = Inl RangeError"
proof (induction "n - k" arbitrary: k acc)
  case 0
  then have kn: "k = n" by simp
  with 0 have "readInt16LE buffer (2 * k) = Inl RangeError"
    by (intro readInt16LE_out_of_bounds) simp
  with 0 kn show ?case by (subst bufferToFloat32_loop.simps) simp
next
  case (Suc d)
  then have lt: "k < n" by simp
  with Suc.prems have rd: "readInt16LE buffer (2 * k) = Inr (sample_at buffer (2 * k))"
    by (intro readInt16LE_in_bounds) simp
  have step: "bufferToFloat32_loop buffer (2 * k) acc =
      bufferToFloat32_loop buffer (2 * Suc k) (acc @ [real_of_int (sample_at buffer (2 * k)) / 32768])"
    using lt Suc.prems rd by (subst bufferToFloat32_loop.simps) simp
  have "d = n - Suc k" using Suc.hyps by simp
  from Suc.hyps(1) [OF this Suc.prems(1)] lt step show ?case by simp
qed

text \<open>
  Claim C10. For a byte buffer of even length, \<open>bufferToFloat32\<close> reads only inside
  the buffer and returns exactly \<open>length / 2\<close> samples, the \<open>j\<close>-th being the signed
  little-endian 16-bit integer at byte \<open>2 * j\<close> divided by 32768, which lies in
  \<open>[-1, 1]\<close>. For a buffer of odd length the last read runs past the end and the
  conversion fails with a \<open>RangeError\<close>.
\<close>

theorem bufferToFloat32_even_length:
  "(even (length buffer) \<longrightarrow>
      (\<exists>out. bufferToFloat32 buffer = Inr out \<and>
             length out = length buffer div 2 \<and>
             (\<forall>j < length out.
                readInt16LE buffer (2 * j) = Inr (sample_at buffer (2 * j)) \<and>
                out ! j = real_of_int (sample_at buffer (2 * j)) / 32768 \<and>
                - 1 \<le> out ! j \<and> out ! j \<le> 1))) \<and>
   (odd (length buffer) \<longrightarrow> bufferToFloat32 buffer = Inl RangeError)"
proof (intro conjI impI)
  assume "even (length buffer)"
  then obtain n where n: "length buffer = 2 * n" by (auto elim: evenE)
  let ?out = "map (\<lambda>j. real_of_int (sample_at buffer (2 * j)) / 32768) [0..<n]"
  have run: "bufferToFloat32 buffer = Inr ?out"
    using bufferToFloat32_loop_even [OF n, of 0 "[]"] by (simp add: bufferToFloat32_def)
  have len: "length ?out = length buffer div 2" using n by simp
  have each: "\<forall>j < length ?out.
      readInt16LE buffer (2 * j) = Inr (sample_at buffer (2 * j)) \<and>
      ?out ! j = real_of_int (sample_at buffer (2 * j)) / 32768 \<and>
      - 1 \<le> ?out ! j \<and> ?out ! j \<le> 1"
  proof (intro allI impI)
    fix j assume "j < length ?out"
    then have j: "j < n" by simp
    then have rd: "readInt16LE buffer (2 * j) = Inr (sample_at buffer (2 * j))"
      using n by (intro readInt16LE_in_bounds) simp
    have b: "- 32768 \<le> sample_at buffer (2 * j) \<and> sample_at buffer (2 * j) < 32768"
      by (rule sample_at_bounds)
    then have "- 1 \<le> real_of_int (sample_at buffer (2 * j)) / 32768"
      and "real_of_int (sample_at buffer (2 * j)) / 32768 \<le> 1" by simp_all
    with rd j show "readInt16LE buffer (2 * j) = Inr (sample_at buffer (2 * j)) \<and>
      ?out ! j = real_of_int (sample_at buffer (2 * j)) / 32768 \<and>
      - 1 \<le> ?out ! j \<and> ?out ! j \<le> 1" by simp
  qed
  from run len each show "\<exists>out. bufferToFloat32 buffer = Inr out \<and>
             length out = length buffer div 2 \<and>
             (\<forall>j < length out.
                readInt16LE buffer (2 * j) = Inr (sample_at buffer (2 * j)) \<and>
                out ! j = real_of_int (sample_at buffer (2 * j)) / 32768 \<and>
                - 1 \<le> out ! j \<and> out ! j \<le> 1)" by blast
next
  assume "odd (length buffer)"
  then obtain n where n: "length buffer = 2 * n + 1" by (auto elim: oddE)
  show "bufferToFloat32 buffer = Inl RangeError"
    using bufferToFloat32_loop_odd [OF n, of 0 "[]"] by (simp add: bufferToFloat32_def)
qed

lemma sample_at_lowest: "sample_at [0, 128] 0 = - 32768"
  by (simp add: sample_at_def)

theorem bufferToFloat32_even_length_witness:
  "even (length [0, 128 :: byte]) \<and>
   (\<exists>out. bufferToFloat32 [0, 128] = Inr out \<and> length out = 1 \<and> out ! 0 = - 1) \<and>
   odd (length [0 :: byte]) \<and> bufferToFloat32 [0] = Inl RangeError"
proof -
  from bufferToFloat32_even_length [of "[0, 128]"]
  obtain out where out: "bufferToFloat32 [0, 128] = Inr out" "length out = 1"
    and each: "\<forall>j < length out. out ! j = real_of_int (sample_at [0, 128] (2 * j)) / 32768"
    by auto
  from each out(2) have "out ! 0 = real_of_int (sample_at [0, 128] (2 * 0)) / 32768"
    by (intro each [rule_format]) simp
  then have "out ! 0 = - 1" by (simp add: sample_at_lowest)
  with out have "\<exists>out. bufferToFloat32 [0, 128] = Inr out \<and> length out = 1 \<and> out ! 0 = - 1"
    by blast
  moreover from bufferToFloat32_even_length [of "[0]"]
  have "bufferToFloat32 [0] = Inl RangeError" by simp
  ultimately show ?thesis by simp
qed

subsection \<open>Score and feedback\<close>

lemma score_rubric:
  "5 \<le> length pitches \<Longrightarrow>
   score (analisarEntonacao_result pitches) =
     min 100 (max 0 (rubric_range (range_of pitches) + rubric_sd (sd_of pitches) +
                     rubric_slope (slope_of pitches)))"
  by (simp add: analisarEntonacao_result_def Let_def rubric_range_def rubric_sd_def rubric_slope_def)

lemma result_fields:
  "5 \<le> length pitches \<Longrightarrow>
   range_val (analisarEntonacao_result pitches) = Some (toFixed 2 (range_of pitches)) \<and>
   sd (analisarEntonacao_result pitches) = Some (toFixed 2 (sd_of pitches)) \<and>
   slope (analisarEntonacao_result pitches) = Some (toFixed 4 (slope_of pitches)) \<and>
   meanPitch (analisarEntonacao_result pitches) = Some (toFixed 2 (mean_of pitches)) \<and>
   pitchCount (analisarEntonacao_result pitches) = Some (length pitches)"
  by (simp add: analisarEntonacao_result_def Let_def split del: if_split)

lemma rubric_range_cases: "rubric_range r = 10 \<or> rubric_range r = 30 \<or> rubric_range r = 40"
  by (simp add: rubric_range_def)

lemma rubric_sd_cases: "rubric_sd r = 10 \<or> rubric_sd r = 30 \<or> rubric_sd r = 20"
  by (simp add: rubric_sd_def)

lemma rubric_slope_cases: "rubric_slope r = 30 \<or> rubric_slope r = 20 \<or> rubric_slope r = 10"
  by (simp add: rubric_slope_def)

lemma ex_mean: "mean_of [100, 105, 110, 108, 102] = 105"
  by (simp add: mean_of_def)

lemma ex_range: "range_of [100, 105, 110, 108, 102] = 10"
  by (simp add: range_of_def)

lemma ex_var: "variance_of [100, 105, 110, 108, 102] = 13.6"
  by (simp add: variance_of_def ex_mean)

lemma ex_slope: "slope_of [100, 105, 110, 108, 102] = 0.4"
  by (simp add: slope_of_def)

lemma ex_sd: "3.68 < sd_of [100, 105, 110, 108, 102] \<and> sd_of [100, 105, 110, 108, 102] < 3.69"
proof -
  have "(3.68::real)\<^sup>2 < 13.6" by (simp add: power2_eq_square)
  then have a: "3.68 < sqrt (13.6::real)" by (rule real_less_rsqrt)
  have "(13.6::real) < 3.69\<^sup>2" by (simp add: power2_eq_square)
  then have b: "sqrt (13.6::real) < 3.69" by (intro real_less_lsqrt) simp_all
  from a b show ?thesis by (simp add: sd_of_def ex_var)
qed

lemma ex_score: "score (analisarEntonacao_result [100, 105, 110, 108, 102]) = 30"
  using ex_sd by (simp add: score_rubric ex_range ex_slope rubric_range_def rubric_sd_def rubric_slope_def)


subsection \<open>The scan loop\<close>

lemma window_guard: "(int (256 * k) < int len - int windowSize) = (k < window_count len)"
  unfolding window_count_def windowSize_def by (auto; presburger)

lemma window_starts_from:
  "k \<le> window_count len \<Longrightarrow>
   window_starts len (256 * k) = map (\<lambda>j. 256 * j) [k..<window_count len]"
proof (induction "window_count len - k" arbitrary: k)
  case 0
  then have "\<not> k < window_count len" by simp
  then have "\<not> int (256 * k) < int len - int windowSize" unfolding window_guard .
  with 0 show ?case by (subst window_starts.simps) simp
next
  case (Suc d)
  then have lt: "k < window_count len" by simp
  then have g: "int (256 * k) < int len - int windowSize" unfolding window_guard .
  have "d = window_count len - Suc k" using Suc.hyps by simp
  moreover have "Suc k \<le> window_count len" using lt by simp
  ultimately have ih: "window_starts len (256 * Suc k) = map (\<lambda>j. 256 * j) [Suc k..<window_count len]"
    by (rule Suc.hyps(1))
  have "window_starts len (256 * k) = 256 * k # window_starts len (256 * Suc k)"
    using g by (subst window_starts.simps) (simp add: hop_def add.commute)
  with ih lt show ?case by (simp add: upt_conv_Cons)
qed

lemma window_starts_closed:
  "window_starts len 0 = map (\<lambda>j. 256 * j) [0..<window_count len]"
  using window_starts_from [of 0 len] by simp

lemma loop_fold:
  "analisarEntonacao_loop detectPitch lo hi samples i pitches =
   fold (\<lambda>j. push_accepted lo hi (detectPitch (take windowSize (drop j samples))))
        (window_starts (length samples) i) pitches"
proof (induction detectPitch lo hi samples i pitches rule: analisarEntonacao_loop.induct)
  case (1 detectPitch lo hi samples i pitches)
  show ?case
  proof (cases "int i < int (length samples) - int windowSize")
    case True
    then show ?thesis
      using "1.IH" [OF True refl refl]
      by (subst analisarEntonacao_loop.simps, subst window_starts.simps) (simp add: Let_def)
  next
    case False
    then show ?thesis
      by (subst analisarEntonacao_loop.simps, subst window_starts.simps) simp
  qed
qed

lemma push_accepted_append:
  "push_accepted lo hi pitch pitches = pitches @ push_accepted lo hi pitch []"
  by (simp add: push_accepted_def split: option.split)

lemma fold_push_accepted:
  "fold (\<lambda>j. push_accepted lo hi (f j)) js pitches =
   pitches @ concat (map (\<lambda>j. push_accepted lo hi (f j) []) js)"
proof (induction js arbitrary: pitches)
  case Nil
  show ?case by simp
next
  case (Cons j js)
  show ?case by (simp add: Cons.IH [of "push_accepted lo hi (f j) pitches"])
      (subst push_accepted_append, simp)
qed

lemma loop_append:
  "analisarEntonacao_loop detectPitch lo hi samples i pitches =
   pitches @ analisarEntonacao_loop detectPitch lo hi samples i []"
  by (simp add: loop_fold fold_push_accepted [where pitches = pitches]
        fold_push_accepted [where pitches = "[]"])

lemma push_accepted_band:
  "p \<in> set (push_accepted lo hi pitch []) \<Longrightarrow> lo < p \<and> p < hi"
  by (auto simp: push_accepted_def split: option.splits if_splits)

lemma loop_band:
  "p \<in> set (analisarEntonacao_loop detectPitch lo hi samples i []) \<Longrightarrow> lo < p \<and> p < hi"
  by (auto simp: loop_fold fold_push_accepted dest: push_accepted_band)

lemma push_accepted_filter:
  "push_accepted 40 600 pitch [] = filter (\<lambda>p. 40 < p \<and> p < 600) (push_accepted 30 800 pitch [])"
  by (simp add: push_accepted_def split: option.split)

lemma phase1_filter:
  "phase1 detectPitch samples =
   filter (\<lambda>p. 40 < p \<and> p < 600) (analisarEntonacao_loop detectPitch 30 800 samples 0 [])"
  by (simp add: phase1_def loop_fold fold_push_accepted filter_concat comp_def
        push_accepted_filter [symmetric])

subsection \<open>Feedback texts and examples\<close>

lemma trim_nonempty:
  assumes "s \<noteq> []" and "\<not> isWhiteSpace (hd s)"
  shows "trim s \<noteq> []"
proof -
  from assms obtain c cs where s: "s = c # cs" and c: "\<not> isWhiteSpace c"
    by (cases s) auto
  then have "dropWhile isWhiteSpace s = s" by simp
  moreover have "dropWhile isWhiteSpace (rev s) \<noteq> []"
    using s c by (auto simp: dropWhile_eq_Nil_conv)
  ultimately show ?thesis by (simp add: trim_def)
qed

lemma hd_range_flat: "msg_range_flat \<noteq> [] \<and> \<not> isWhiteSpace (hd msg_range_flat)"
  by (simp add: msg_range_flat_def ascii_def isWhiteSpace_def)

lemma hd_range_good: "msg_range_good \<noteq> [] \<and> \<not> isWhiteSpace (hd msg_range_good)"
  by (simp add: msg_range_good_def ascii_def isWhiteSpace_def)

lemma hd_range_great: "msg_range_great \<noteq> [] \<and> \<not> isWhiteSpace (hd msg_range_great)"
  by (simp add: msg_range_great_def ascii_def isWhiteSpace_def)

lemma feedback_nonempty:
  "5 \<le> length pitches \<Longrightarrow> feedback (analisarEntonacao_result pitches) \<noteq> []"
  using hd_range_flat hd_range_good hd_range_great
  by (simp add: analisarEntonacao_result_def Let_def trim_nonempty)

lemma msg_insufficient_lines: "msg_insufficient \<noteq> [] \<and> 0xA \<in> set msg_insufficient"
  by (simp add: msg_insufficient_def)

lemma trim_example:
  "trim (msg_range_flat @ msg_sd_robotic @ msg_slope_neutral) =
   msg_range_flat @ msg_sd_robotic @ msg_slope_neutral"
  by (simp add: trim_def msg_range_flat_def msg_sd_robotic_def msg_slope_neutral_def ascii_def isWhiteSpace_def)

lemma rise_mean: "mean_of [100, 100, 100, 100, 100, 100, 100, 100, 100, 100, 100, 101] = 1201 / 12"
  by (simp add: mean_of_def)

lemma rise_var: "variance_of [100, 100, 100, 100, 100, 100, 100, 100, 100, 100, 100, 101] = 11 / 144"
  by (simp add: variance_of_def rise_mean power2_eq_square)

lemma rise_sd: "sd_of [100, 100, 100, 100, 100, 100, 100, 100, 100, 100, 100, 101] < 10"
proof -
  have "sqrt (11 / 144 :: real) < 10" by (intro real_less_lsqrt) simp_all
  then show ?thesis by (simp add: sd_of_def rise_var)
qed

lemma rise_slope: "slope_of [100, 100, 100, 100, 100, 100, 100, 100, 100, 100, 100, 101] = 1 / 12"
  by (simp add: slope_of_def)

lemma rise_range: "range_of [100, 100, 100, 100, 100, 100, 100, 100, 100, 100, 100, 101] = 1"
  by (simp add: range_of_def)

lemma rise_feedback:
  "feedback (analisarEntonacao_result [100, 100, 100, 100, 100, 100, 100, 100, 100, 100, 100, 101]) =
   trim (msg_range_flat @ msg_sd_robotic @ msg_slope_neutral)"
  using rise_sd by (simp add: analisarEntonacao_result_def Let_def rise_range rise_slope)

lemma rise_score:
  "score (analisarEntonacao_result [100, 100, 100, 100, 100, 100, 100, 100, 100, 100, 100, 101]) = 30"
  using rise_sd by (simp add: analisarEntonacao_result_def Let_def rise_range rise_slope)

subsection \<open>Claims on the score\<close>

text \<open>
  Claim C1. For a contour of at least five pitches the score is the sum of the three
  rubric contributions of the specification, for the range, the standard deviation
  and the slope of the contour, clamped to \<open>[0, 100]\<close>.
\<close>

theorem score_is_rubric_sum:
  "5 \<le> length pitches \<Longrightarrow>
   score (analisarEntonacao_result pitches) =
     min 100 (max 0 (rubric_range (range_of pitches) + rubric_sd (sd_of pitches) +
                     rubric_slope (slope_of pitches)))"
  by (rule score_rubric)

lemma ex2_range: "range_of [150, 180, 140, 200, 130, 210] = 80"
  by (simp add: range_of_def)

lemma ex2_mean: "mean_of [150, 180, 140, 200, 130, 210] = 505 / 3"
  by (simp add: mean_of_def)

lemma ex2_var: "variance_of [150, 180, 140, 200, 130, 210] = 8225 / 9"
  by (simp add: variance_of_def ex2_mean power2_eq_square)

lemma ex2_sd: "10 \<le> sd_of [150, 180, 140, 200, 130, 210] \<and> sd_of [150, 180, 140, 200, 130, 210] < 40"
proof -
  have "(10::real)\<^sup>2 \<le> 8225 / 9" by simp
  then have a: "10 \<le> sqrt (8225 / 9 :: real)" by (rule real_le_rsqrt)
  have b: "sqrt (8225 / 9 :: real) < 40" by (intro real_less_lsqrt) simp_all
  from a b show ?thesis by (simp add: sd_of_def ex2_var)
qed

lemma ex2_slope: "slope_of [150, 180, 140, 200, 130, 210] = 10"
  by (simp add: slope_of_def)

theorem score_is_rubric_sum_witness:
  "5 \<le> length [150, 180, 140, 200, 130, 210 :: real] \<and>
   score (analisarEntonacao_result [150, 180, 140, 200, 130, 210]) = 40 + 30 + 10"
  using score_is_rubric_sum [of "[150, 180, 140, 200, 130, 210]"] ex2_sd
  by (simp add: ex2_range ex2_slope rubric_range_def rubric_sd_def rubric_slope_def)

text \<open>
  Claim C8. For a contour of at least five pitches each of the three contributions
  lies between 10 and 40, their sum lies in \<open>[30, 100]\<close> and is a multiple of 10, the
  clamp leaves the sum as it is, and the score is that sum; so the score is 0 exactly
  when the contour has fewer than five pitches.
\<close>

theorem rubric_sum_bounds:
  "(5 \<le> length pitches \<longrightarrow>
      (let a = rubric_range (range_of pitches);
           b = rubric_sd (sd_of pitches);
           c = rubric_slope (slope_of pitches)
       in 10 \<le> a \<and> a \<le> 40 \<and> 10 \<le> b \<and> b \<le> 40 \<and> 10 \<le> c \<and> c \<le> 40 \<and>
          30 \<le> a + b + c \<and> a + b + c \<le> 100 \<and> 10 dvd (a + b + c) \<and>
          min 100 (max 0 (a + b + c)) = a + b + c \<and>
          score (analisarEntonacao_result pitches) = a + b + c)) \<and>
   (score (analisarEntonacao_result pitches) = 0 \<longleftrightarrow> length pitches < 5)"
proof -
  let ?a = "rubric_range (range_of pitches)"
  let ?b = "rubric_sd (sd_of pitches)"
  let ?c = "rubric_slope (slope_of pitches)"
  have a: "?a = 10 \<or> ?a = 30 \<or> ?a = 40" by (rule rubric_range_cases)
  have b: "?b = 10 \<or> ?b = 30 \<or> ?b = 20" by (rule rubric_sd_cases)
  have c: "?c = 30 \<or> ?c = 20 \<or> ?c = 10" by (rule rubric_slope_cases)
  have bounds: "10 \<le> ?a \<and> ?a \<le> 40 \<and> 10 \<le> ?b \<and> ?b \<le> 40 \<and> 10 \<le> ?c \<and> ?c \<le> 40 \<and>
      30 \<le> ?a + ?b + ?c \<and> ?a + ?b + ?c \<le> 100"
    using a b c by linarith
  have dv: "10 dvd (?a + ?b + ?c)"
    using a b c by (elim disjE) simp_all
  have clamp: "min 100 (max 0 (?a + ?b + ?c)) = ?a + ?b + ?c"
    using bounds by simp
  have sc: "5 \<le> length pitches \<Longrightarrow> score (analisarEntonacao_result pitches) = ?a + ?b + ?c"
    using clamp by (simp add: score_rubric)
  have zero: "score (analisarEntonacao_result pitches) = 0 \<longleftrightarrow> length pitches < 5"
  proof (cases "length pitches < 5")
    case True
    then show ?thesis by (simp add: analisarEntonacao_result_def)
  next
    case False
    then have "score (analisarEntonacao_result pitches) = ?a + ?b + ?c" by (simp add: sc)
    with bounds False show ?thesis by simp
  qed
  from bounds dv clamp sc zero show ?thesis by (simp add: Let_def)
qed

lemma flat_range: "range_of [100, 100, 100, 100, 100] = 0"
  by (simp add: range_of_def)

lemma flat_mean: "mean_of [100, 100, 100, 100, 100] = 100"
  by (simp add: mean_of_def)

lemma flat_sd: "sd_of [100, 100, 100, 100, 100] = 0"
  by (simp add: sd_of_def variance_of_def flat_mean)

lemma flat_slope: "slope_of [100, 100, 100, 100, 100] = 0"
  by (simp add: slope_of_def)

theorem rubric_sum_bounds_witness:
  "5 \<le> length [100, 100, 100, 100, 100 :: real] \<and>
   score (analisarEntonacao_result [100, 100, 100, 100, 100]) = 10 + 10 + 20 \<and>
   length ([] :: real list) < 5 \<and> score (analisarEntonacao_result []) = 0"
  using rubric_sum_bounds [of "[100, 100, 100, 100, 100]"] rubric_sum_bounds [of "[]"]
  by (simp add: Let_def flat_range flat_sd flat_slope rubric_range_def rubric_sd_def rubric_slope_def)

text \<open>
  Claim C4, as stated, fails: the variance of the contour \<open>[100, 105, 110, 108, 102]\<close>
  is not 10.8.
\<close>

theorem example_contour_counterexample:
  "variance_of [100, 105, 110, 108, 102] \<noteq> 10.8"
  by (simp add: ex_var)

text \<open>
  Claim C4, amended. For the contour \<open>[100, 105, 110, 108, 102]\<close> the range is 10, the
  mean 105, the variance 13.6, the standard deviation \<open>sqrt 13.6\<close>, between 3.68 and
  3.69, the slope \<open>(102 - 100) / 5 = 0.4\<close>; each rubric contribution is 10 and the
  score is 30.
\<close>

theorem example_contour_features:
  "range_of [100, 105, 110, 108, 102] = 10 \<and>
   mean_of [100, 105, 110, 108, 102] = 105 \<and>
   variance_of [100, 105, 110, 108, 102] = 13.6 \<and>
   sd_of [100, 105, 110, 108, 102] = sqrt 13.6 \<and>
   3.68 < sd_of [100, 105, 110, 108, 102] \<and> sd_of [100, 105, 110, 108, 102] < 3.69 \<and>
   slope_of [100, 105, 110, 108, 102] = (102 - 100) / 5 \<and>
   slope_of [100, 105, 110, 108, 102] = 0.4 \<and>
   rubric_range (range_of [100, 105, 110, 108, 102]) = 10 \<and>
   rubric_sd (sd_of [100, 105, 110, 108, 102]) = 10 \<and>
   rubric_slope (slope_of [100, 105, 110, 108, 102]) = 10 \<and>
   score (analisarEntonacao_result [100, 105, 110, 108, 102]) = 30"
proof -
  have sd: "sd_of [100, 105, 110, 108, 102] = sqrt 13.6"
    by (simp add: sd_of_def ex_var)
  have rsd: "rubric_sd (sd_of [100, 105, 110, 108, 102]) = 10"
    using ex_sd by (simp add: rubric_sd_def)
  have rr: "rubric_range (range_of [100, 105, 110, 108, 102]) = 10"
    by (simp add: ex_range rubric_range_def)
  have rs: "rubric_slope (slope_of [100, 105, 110, 108, 102]) = 10"
    by (simp add: ex_slope rubric_slope_def)
  have sl: "slope_of [100, 105, 110, 108, 102] = (102 - 100) / 5"
    by (simp add: ex_slope)
  show ?thesis
    by (intro conjI ex_range ex_mean ex_var sd ex_sd [THEN conjunct1] ex_sd [THEN conjunct2]
          sl ex_slope rr rsd rs ex_score)
qed

text \<open>
  Claim C5. The code at a contour of eleven pitches of 100 Hz and a last one of
  101 Hz: the slope is \<open>1 / 12\<close>, which the score puts in the bucket of 0.05 and
  above (10 points, the rising bucket), while the feedback ends with the sentence of
  a neutral ending. The feedback is the range sentence, the stability sentence and
  that declination sentence, trimmed.
\<close>

theorem declination_sentence_mismatch:
  "slope_of [100, 100, 100, 100, 100, 100, 100, 100, 100, 100, 100, 101] = 1 / 12 \<and>
   rubric_slope (slope_of [100, 100, 100, 100, 100, 100, 100, 100, 100, 100, 100, 101]) = 10 \<and>
   score (analisarEntonacao_result [100, 100, 100, 100, 100, 100, 100, 100, 100, 100, 100, 101]) = 10 + 10 + 10 \<and>
   feedback (analisarEntonacao_result [100, 100, 100, 100, 100, 100, 100, 100, 100, 100, 100, 101]) =
     trim (msg_range_flat @ msg_sd_robotic @ msg_slope_neutral) \<and>
   trim (msg_range_flat @ msg_sd_robotic @ msg_slope_neutral) =
     msg_range_flat @ msg_sd_robotic @ msg_slope_neutral"
  using rise_score rise_feedback trim_example
  by (simp add: rise_slope rubric_slope_def)

subsection \<open>Claims on the contour\<close>

lemma upt_0_3: "[0..<3] = [0, 1, 2]"
  by (simp add: eval_nat_numeral)

lemma window_count_1025: "window_count 1025 = 3"
  by (simp add: window_count_def)

lemma window_starts_mem:
  "start \<in> set (window_starts len 0) \<longleftrightarrow> hop dvd start \<and> start + windowSize < len"
proof -
  have "start \<in> set (window_starts len 0) \<longleftrightarrow> (\<exists>k < window_count len. start = 256 * k)"
    by (auto simp: window_starts_closed)
  also have "\<dots> \<longleftrightarrow> (\<exists>k. start = 256 * k \<and> int (256 * k) < int len - int windowSize)"
    by (auto simp only: window_guard)
  also have "\<dots> \<longleftrightarrow> hop dvd start \<and> start + windowSize < len"
    by (auto simp: hop_def windowSize_def dvd_def)
  finally show ?thesis .
qed

text \<open>
  Claim C2, as stated, fails: for a waveform of 512 samples the loop scans no window,
  where the specification counts one.
\<close>

theorem window_count_counterexample:
  "length (window_starts 512 0) \<noteq> spec_window_count 512"
  by (simp add: window_starts.simps windowSize_def spec_window_count_def)

text \<open>
  Claim C2, amended. Each scan applies the detector to the windows that start at the
  indices \<open>window_starts\<close> of the loop header, in order. These are the multiples
  \<open>0, 256, 512, \<dots>\<close> of the hop with \<open>start + 512 < length\<close>, so their number is
  \<open>floor((length - 513) / 256) + 1\<close> when \<open>length > 512\<close> and zero when
  \<open>length \<le> 512\<close>.
\<close>

theorem window_traversal:
  "analisarEntonacao_loop detectPitch lo hi samples 0 pitches =
     fold (\<lambda>start. push_accepted lo hi (detectPitch (take windowSize (drop start samples))))
          (window_starts (length samples) 0) pitches \<and>
   window_starts len 0 = map (\<lambda>k. hop * k) [0..<length (window_starts len 0)] \<and>
   (\<forall>start. start \<in> set (window_starts len 0) \<longleftrightarrow> hop dvd start \<and> start + 512 < len) \<and>
   length (window_starts len 0) = (if 512 < len then (len - 513) div 256 + 1 else 0)"
proof (intro conjI allI)
  show "analisarEntonacao_loop detectPitch lo hi samples 0 pitches =
     fold (\<lambda>start. push_accepted lo hi (detectPitch (take windowSize (drop start samples))))
          (window_starts (length samples) 0) pitches"
    by (rule loop_fold)
  show len: "length (window_starts len 0) = (if 512 < len then (len - 513) div 256 + 1 else 0)"
    by (simp add: window_starts_closed window_count_def)
  have "length (window_starts len 0) = window_count len"
    by (simp add: window_starts_closed)
  then show "window_starts len 0 = map (\<lambda>k. hop * k) [0..<length (window_starts len 0)]"
    by (simp add: window_starts_closed hop_def)
  show "start \<in> set (window_starts len 0) \<longleftrightarrow> hop dvd start \<and> start + 512 < len" for start
    using window_starts_mem [of start len] by (simp add: windowSize_def)
qed

theorem window_traversal_witness:
  "window_starts 1025 0 = [0, 256, 512] \<and> 512 + 512 < (1025::nat) \<and>
   512 \<in> set (window_starts 1025 0) \<and> length (window_starts 1024 0) = 2"
proof -
  note w = window_traversal [of "\<lambda>slice. None" 0 0 "[]" "[]" 1025]
  have eq: "window_starts 1025 0 = map (\<lambda>k. hop * k) [0..<length (window_starts 1025 0)]"
    by (rule w [THEN conjunct2, THEN conjunct1])
  have len: "length (window_starts 1025 0) = 3"
    using w by simp
  from eq have a: "window_starts 1025 0 = [0, 256, 512]"
    unfolding len by (simp add: hop_def upt_0_3)
  from window_traversal [of "\<lambda>slice. None" 0 0 "[]" "[]" 1024]
  have b: "length (window_starts 1024 0) = 2" by simp
  from a b show ?thesis by simp
qed

text \<open>
  Claim C7. Every pitch of the first scan lies strictly between 40 and 600 Hz; the
  contour is the result of the first scan followed by the pitches that the second
  scan appended, each strictly between 30 and 800 Hz; so every pitch of the contour
  lies in \<open>[30, 800]\<close>.
\<close>

theorem contour_in_band:
  "(\<forall>p \<in> set (phase1 detectPitch samples). 40 < p \<and> p < 600) \<and>
   (\<exists>appended.
      analisarEntonacao_pitches detectPitch samples = phase1 detectPitch samples @ appended \<and>
      (\<forall>p \<in> set appended. 30 < p \<and> p < 800)) \<and>
   (\<forall>p \<in> set (analisarEntonacao_pitches detectPitch samples). 30 \<le> p \<and> p \<le> 800)"
proof -
  let ?p1 = "phase1 detectPitch samples"
  let ?p2 = "analisarEntonacao_loop detectPitch 30 800 samples 0 []"
  have one: "\<forall>p \<in> set ?p1. 40 < p \<and> p < 600"
    unfolding phase1_def using loop_band by blast
  have two: "\<forall>p \<in> set ?p2. 30 < p \<and> p < 800"
    using loop_band by blast
  have split: "analisarEntonacao_pitches detectPitch samples =
      ?p1 @ (if length ?p1 < 5 then ?p2 else [])"
    using loop_append [of detectPitch 30 800 samples 0 ?p1]
    by (simp add: analisarEntonacao_pitches_def Let_def)
  have app: "\<forall>p \<in> set (if length ?p1 < 5 then ?p2 else []). 30 < p \<and> p < 800"
    using two by simp
  have "\<forall>p \<in> set (analisarEntonacao_pitches detectPitch samples). 30 \<le> p \<and> p \<le> 800"
    unfolding split using one app by fastforce
  with one split app show ?thesis by blast
qed

lemma const_loop:
  "analisarEntonacao_loop (\<lambda>slice. Some p) lo hi (replicate n x) 0 pitches =
   pitches @ concat (map (\<lambda>j. push_accepted lo hi (Some p) []) [0..<window_count n])"
  by (simp add: loop_fold fold_push_accepted window_starts_closed comp_def)

lemma const_phase1: "phase1 (\<lambda>slice. Some 100) (replicate 1025 (1 / 2)) = [100, 100, 100]"
  by (simp add: phase1_def const_loop window_count_1025 upt_0_3 push_accepted_def)

lemma const_relaxed:
  "analisarEntonacao_loop (\<lambda>slice. Some 100) 30 800 (replicate 1025 (1 / 2)) 0 [] = [100, 100, 100]"
  by (simp add: const_loop window_count_1025 upt_0_3 push_accepted_def)

lemma const_pitches:
  "analisarEntonacao_pitches (\<lambda>slice. Some 100) (replicate 1025 (1 / 2)) =
   [100, 100, 100, 100, 100, 100]"
  by (simp add: analisarEntonacao_pitches_def const_phase1)
     (simp add: const_loop window_count_1025 upt_0_3 push_accepted_def)

theorem contour_in_band_witness:
  "100 \<in> set (phase1 (\<lambda>slice. Some 100) (replicate 1025 (1 / 2))) \<and> (40::real) < 100 \<and> (100::real) < 600 \<and>
   analisarEntonacao_pitches (\<lambda>slice. Some 100) (replicate 1025 (1 / 2)) =
     phase1 (\<lambda>slice. Some 100) (replicate 1025 (1 / 2)) @ [100, 100, 100] \<and>
   100 \<in> set (analisarEntonacao_pitches (\<lambda>slice. Some 100) (replicate 1025 (1 / 2))) \<and>
   (30::real) \<le> 100 \<and> (100::real) \<le> 800"
  using contour_in_band [of "\<lambda>slice. Some 100" "replicate 1025 (1 / 2)"]
  by (simp add: const_phase1 const_pitches)

subsection \<open>The whole analysis\<close>

lemma Math_max_fits:
  "length xs \<le> maxArgs \<Longrightarrow>
   \<exists>m. Math_max maxArgs (map abs xs) = Inr m \<and> (num_less m b \<longleftrightarrow> (\<forall>x \<in> set xs. \<bar>x\<bar> < b))"
  by (cases "xs = []") (simp_all add: Math_max_def spread_overflow_def)

lemma samples_fits:
  assumes "length floatSamples \<le> maxArgs"
  shows "analisarEntonacao_samples maxArgs floatSamples =
     Inr (if \<forall>x \<in> set floatSamples. \<bar>x\<bar> < 0.1 then amplificarAudio floatSamples 3.0
          else floatSamples)"
proof -
  from Math_max_fits [OF assms, of "0.1"] obtain m
    where m: "Math_max maxArgs (map abs floatSamples) = Inr m"
      and less: "num_less m 0.1 \<longleftrightarrow> (\<forall>x \<in> set floatSamples. \<bar>x\<bar> < 0.1)"
    by blast
  show ?thesis
  proof (cases "\<forall>x \<in> set floatSamples. \<bar>x\<bar> < 0.1")
    case True
    with less have "num_less m 0.1" by blast
    with True show ?thesis by (simp add: analisarEntonacao_samples_def m)
  next
    case False
    with less have "\<not> num_less m 0.1" by blast
    with False show ?thesis by (auto simp: analisarEntonacao_samples_def m)
  qed
qed

lemma samples_overflow:
  "maxArgs < length floatSamples \<Longrightarrow>
   analisarEntonacao_samples maxArgs floatSamples = Inl RangeError"
  by (simp add: analisarEntonacao_samples_def Math_max_def spread_overflow_def)

lemma samples_length:
  assumes "analisarEntonacao_samples maxArgs floatSamples = Inr samples"
  shows "length floatSamples \<le> maxArgs \<and> length samples = length floatSamples"
proof (cases "length floatSamples \<le> maxArgs")
  case True
  from assms samples_fits [OF True] have "length samples = length floatSamples"
    by (auto simp: amplificarAudio_def split: if_splits)
  with True show ?thesis by simp
next
  case False
  then have "analisarEntonacao_samples maxArgs floatSamples = Inl RangeError"
    by (intro samples_overflow) simp
  with assms show ?thesis by simp
qed

lemma push_accepted_short: "length (push_accepted lo hi pitch []) \<le> 1"
  by (simp add: push_accepted_def split: option.split)

lemma concat_short:
  "(\<And>j. length (f j) \<le> 1) \<Longrightarrow> length (concat (map f js)) \<le> length js"
proof (induction js)
  case Nil
  show ?case by simp
next
  case (Cons j js)
  from Cons.prems have "length (f j) \<le> 1" .
  moreover from Cons have "length (concat (map f js)) \<le> length js" by simp
  ultimately show ?case by simp
qed

lemma loop_length:
  "length (analisarEntonacao_loop detectPitch lo hi samples 0 []) \<le> window_count (length samples)"
proof -
  have "length (concat (map (\<lambda>j. push_accepted lo hi
          (detectPitch (take windowSize (drop j samples))) [])
          (window_starts (length samples) 0))) \<le> length (window_starts (length samples) 0)"
    by (rule concat_short) (rule push_accepted_short)
  then show ?thesis
    by (simp add: loop_fold fold_push_accepted window_starts_closed)
qed

lemma window_count_half: "2 * window_count n \<le> n"
  unfolding window_count_def by (auto; presburger)

lemma pitches_fit:
  "length (analisarEntonacao_pitches detectPitch samples) \<le> length samples"
proof -
  have one: "length (phase1 detectPitch samples) \<le> window_count (length samples)"
    unfolding phase1_def by (rule loop_length)
  have two: "length (analisarEntonacao_loop detectPitch 30 800 samples 0 []) \<le>
      window_count (length samples)"
    by (rule loop_length)
  have "length (analisarEntonacao_pitches detectPitch samples) \<le> 2 * window_count (length samples)"
    using one two loop_append [of detectPitch 30 800 samples 0 "phase1 detectPitch samples"]
    by (simp add: analisarEntonacao_pitches_def Let_def)
  with window_count_half [of "length samples"] show ?thesis by linarith
qed

lemma analisar_returns:
  assumes "analisarEntonacao_samples maxArgs floatSamples = Inr samples"
  shows "analisarEntonacao maxArgs detectPitch floatSamples =
     Inr (analisarEntonacao_result (analisarEntonacao_pitches detectPitch samples))"
proof -
  from samples_length [OF assms] pitches_fit [of detectPitch samples]
  have "\<not> spread_overflow maxArgs (analisarEntonacao_pitches detectPitch samples)"
    by (simp add: spread_overflow_def)
  then show ?thesis by (simp add: analisarEntonacao_def assms Let_def)
qed

lemma analisar_overflow:
  "maxArgs < length floatSamples \<Longrightarrow>
   analisarEntonacao maxArgs detectPitch floatSamples = Inl RangeError"
  by (simp add: analisarEntonacao_def samples_overflow)

lemma none_loop:
  "analisarEntonacao_loop (\<lambda>slice. None) lo hi samples 0 pitches = pitches"
  by (simp add: loop_fold fold_push_accepted push_accepted_def)

lemma none_pitches: "analisarEntonacao_pitches (\<lambda>slice. None) samples = []"
  by (simp add: analisarEntonacao_pitches_def phase1_def none_loop)

lemma loud_samples:
  assumes "0 < n" and "n \<le> maxArgs"
  shows "analisarEntonacao_samples maxArgs (replicate n (1 / 2)) = Inr (replicate n (1 / 2))"
proof -
  have "(1 / 2 :: real) \<in> set (replicate n (1 / 2))" using assms(1) by simp
  moreover have "\<not> \<bar>1 / 2 :: real\<bar> < 0.1" by simp
  ultimately have "\<not> (\<forall>x \<in> set (replicate n (1 / 2 :: real)). \<bar>x\<bar> < 0.1)" by blast
  moreover have "length (replicate n (1 / 2 :: real)) \<le> maxArgs" using assms(2) by simp
  ultimately show ?thesis by (simp only: samples_fits if_False)
qed

subsection \<open>Claims on the whole analysis\<close>




lemma upt_0_2: "[0..<2] = [0, 1]"
  by (simp add: eval_nat_numeral)

lemma window_count_769: "window_count 769 = 2"
  by (simp add: window_count_def)

lemma short_phase1: "phase1 (\<lambda>slice. Some 100) (replicate 769 (1 / 2)) = [100, 100]"
  by (simp add: phase1_def const_loop window_count_769 upt_0_2 push_accepted_def)

lemma short_pitches:
  "analisarEntonacao_pitches (\<lambda>slice. Some 100) (replicate 769 (1 / 2)) = [100, 100, 100, 100]"
  by (simp add: analisarEntonacao_pitches_def short_phase1)
     (simp add: const_loop window_count_769 upt_0_2 push_accepted_def)

text \<open>
  Claim C3. When the first statement returns \<open>samples\<close> and the combined contour of
  the two scans has fewer than five pitches, the analysis returns the object with
  \<open>score\<close> 0 and the fixed guidance message as \<open>feedback\<close>, and with none of the fields
  \<open>range\<close>, \<open>sd\<close>, \<open>slope\<close>, \<open>pitchCount\<close>, \<open>meanPitch\<close>; the message is not empty
  and has a line break. The first statement returns for every waveform that fits
  into one argument list. It throws for the others: a silent waveform of 160000
  samples, in which the detector finds no pitch, ends in a \<open>RangeError\<close> on every
  engine that holds fewer than 160000 arguments, and no object is returned.
\<close>

theorem insufficient_result:
  "(analisarEntonacao_samples maxArgs floatSamples = Inr samples \<longrightarrow>
      length (analisarEntonacao_pitches detectPitch samples) < 5 \<longrightarrow>
      analisarEntonacao maxArgs detectPitch floatSamples =
        Inr \<lparr>score = 0, feedback = msg_insufficient, range_val = None, sd = None,
             slope = None, pitchCount = None, meanPitch = None\<rparr>) \<and>
   (length floatSamples \<le> maxArgs \<longrightarrow>
      (\<exists>samples. analisarEntonacao_samples maxArgs floatSamples = Inr samples)) \<and>
   msg_insufficient \<noteq> [] \<and> 0xA \<in> set msg_insufficient \<and>
   analisarEntonacao_pitches (\<lambda>slice. None) silent = [] \<and>
   (maxArgs < 160000 \<longrightarrow>
      analisarEntonacao maxArgs (\<lambda>slice. None) (replicate 160000 0) = Inl RangeError)"
proof (intro conjI impI)
  assume s: "analisarEntonacao_samples maxArgs floatSamples = Inr samples"
    and few: "length (analisarEntonacao_pitches detectPitch samples) < 5"
  from few show "analisarEntonacao maxArgs detectPitch floatSamples =
        Inr \<lparr>score = 0, feedback = msg_insufficient, range_val = None, sd = None,
             slope = None, pitchCount = None, meanPitch = None\<rparr>"
    by (simp add: analisar_returns [OF s] analisarEntonacao_result_def)
next
  assume "length floatSamples \<le> maxArgs"
  then show "\<exists>samples. analisarEntonacao_samples maxArgs floatSamples = Inr samples"
    by (simp add: samples_fits)
next
  show "msg_insufficient \<noteq> []" using msg_insufficient_lines by simp
  show "0xA \<in> set msg_insufficient" using msg_insufficient_lines by simp
  show "analisarEntonacao_pitches (\<lambda>slice. None) silent = []" by (rule none_pitches)
next
  assume "maxArgs < 160000"
  then show "analisarEntonacao maxArgs (\<lambda>slice. None) (replicate 160000 0) = Inl RangeError"
    by (intro analisar_overflow) simp
qed

theorem insufficient_result_witness:
  "analisarEntonacao_samples 100000 (replicate 769 (1 / 2)) = Inr (replicate 769 (1 / 2)) \<and>
   length (analisarEntonacao_pitches (\<lambda>slice. Some 100) (replicate 769 (1 / 2))) = 4 \<and>
   analisarEntonacao 100000 (\<lambda>slice. Some 100) (replicate 769 (1 / 2)) =
     Inr \<lparr>score = 0, feedback = msg_insufficient, range_val = None, sd = None,
          slope = None, pitchCount = None, meanPitch = None\<rparr> \<and>
   (100000 :: nat) < 160000 \<and>
   analisarEntonacao 100000 (\<lambda>slice. None) (replicate 160000 0) = Inl RangeError"
proof -
  have s: "analisarEntonacao_samples 100000 (replicate 769 (1 / 2)) = Inr (replicate 769 (1 / 2))"
    by (rule loud_samples) simp_all
  have n: "length (analisarEntonacao_pitches (\<lambda>slice. Some 100) (replicate 769 (1 / 2))) = 4"
    by (simp add: short_pitches)
  note w = insufficient_result [of 100000 "replicate 769 (1 / 2)" "replicate 769 (1 / 2)"
      "\<lambda>slice. Some 100"]
  from w s n have r: "analisarEntonacao 100000 (\<lambda>slice. Some 100) (replicate 769 (1 / 2)) =
     Inr \<lparr>score = 0, feedback = msg_insufficient, range_val = None, sd = None,
          slope = None, pitchCount = None, meanPitch = None\<rparr>"
    by simp
  from w have t: "analisarEntonacao 100000 (\<lambda>slice. None) (replicate 160000 0) = Inl RangeError"
    by simp
  from s n r t show ?thesis by simp
qed

text \<open>
  Claim C9. When the first statement returns \<open>samples\<close> and the combined contour has
  at least five pitches, the analysis returns an object, without throwing at the
  spreads of the contour: it has the five numeric fields, the rounded range,
  standard deviation, slope and mean of the contour and \<open>pitchCount\<close>, the length
  of the contour, and its feedback is not empty. When the second scan ran, the
  contour is the first scan followed by the whole relaxed scan, of which the first
  scan is the part inside \<open>(40, 600)\<close>: a pitch accepted by both scans is counted
  twice.
\<close>

theorem success_result:
  assumes "analisarEntonacao_samples maxArgs floatSamples = Inr samples"
    and "5 \<le> length (analisarEntonacao_pitches detectPitch samples)"
  shows "\<exists>r. analisarEntonacao maxArgs detectPitch floatSamples = Inr r \<and>
         (let pitches = analisarEntonacao_pitches detectPitch samples;
              relaxed = analisarEntonacao_loop detectPitch 30 800 samples 0 []
          in range_val r = Some (toFixed 2 (range_of pitches)) \<and>
             sd r = Some (toFixed 2 (sd_of pitches)) \<and>
             slope r = Some (toFixed 4 (slope_of pitches)) \<and>
             meanPitch r = Some (toFixed 2 (mean_of pitches)) \<and>
             pitchCount r = Some (length pitches) \<and>
             feedback r \<noteq> [] \<and>
             (length (phase1 detectPitch samples) < 5 \<longrightarrow>
                pitches = phase1 detectPitch samples @ relaxed \<and>
                phase1 detectPitch samples = filter (\<lambda>p. 40 < p \<and> p < 600) relaxed \<and>
                pitchCount r = Some (length (phase1 detectPitch samples) + length relaxed)))"
proof -
  let ?ps = "analisarEntonacao_pitches detectPitch samples"
  let ?relaxed = "analisarEntonacao_loop detectPitch 30 800 samples 0 []"
  let ?r = "analisarEntonacao_result ?ps"
  have run: "analisarEntonacao maxArgs detectPitch floatSamples = Inr ?r"
    using assms(1) by (rule analisar_returns)
  have fields: "range_val ?r = Some (toFixed 2 (range_of ?ps)) \<and>
      sd ?r = Some (toFixed 2 (sd_of ?ps)) \<and>
      slope ?r = Some (toFixed 4 (slope_of ?ps)) \<and>
      meanPitch ?r = Some (toFixed 2 (mean_of ?ps)) \<and>
      pitchCount ?r = Some (length ?ps)"
    using assms(2) by (rule result_fields)
  have fb: "feedback ?r \<noteq> []"
    using assms(2) by (rule feedback_nonempty)
  have twice: "length (phase1 detectPitch samples) < 5 \<longrightarrow>
      ?ps = phase1 detectPitch samples @ ?relaxed \<and>
      phase1 detectPitch samples = filter (\<lambda>p. 40 < p \<and> p < 600) ?relaxed \<and>
      pitchCount ?r = Some (length (phase1 detectPitch samples) + length ?relaxed)"
  proof
    assume lt: "length (phase1 detectPitch samples) < 5"
    then have eq: "?ps = phase1 detectPitch samples @ ?relaxed"
      using loop_append [of detectPitch 30 800 samples 0 "phase1 detectPitch samples"]
      by (simp add: analisarEntonacao_pitches_def Let_def)
    have len: "length ?ps = length (phase1 detectPitch samples) + length ?relaxed"
      by (subst eq) simp
    from fields have "pitchCount ?r = Some (length ?ps)" by blast
    then have cnt: "pitchCount ?r = Some (length (phase1 detectPitch samples) + length ?relaxed)"
      by (simp only: len)
    show "?ps = phase1 detectPitch samples @ ?relaxed \<and>
      phase1 detectPitch samples = filter (\<lambda>p. 40 < p \<and> p < 600) ?relaxed \<and>
      pitchCount ?r = Some (length (phase1 detectPitch samples) + length ?relaxed)"
      by (intro conjI eq cnt phase1_filter)
  qed
  from fields fb twice have "let pitches = ?ps; relaxed = ?relaxed
          in range_val ?r = Some (toFixed 2 (range_of pitches)) \<and>
             sd ?r = Some (toFixed 2 (sd_of pitches)) \<and>
             slope ?r = Some (toFixed 4 (slope_of pitches)) \<and>
             meanPitch ?r = Some (toFixed 2 (mean_of pitches)) \<and>
             pitchCount ?r = Some (length pitches) \<and>
             feedback ?r \<noteq> [] \<and>
             (length (phase1 detectPitch samples) < 5 \<longrightarrow>
                pitches = phase1 detectPitch samples @ relaxed \<and>
                phase1 detectPitch samples = filter (\<lambda>p. 40 < p \<and> p < 600) relaxed \<and>
                pitchCount ?r = Some (length (phase1 detectPitch samples) + length relaxed))"
    unfolding Let_def by blast
  with run show ?thesis by blast
qed

theorem success_result_witness:
  "analisarEntonacao_samples 100000 (replicate 1025 (1 / 2)) = Inr (replicate 1025 (1 / 2)) \<and>
   5 \<le> length (analisarEntonacao_pitches (\<lambda>slice. Some 100) (replicate 1025 (1 / 2))) \<and>
   length (phase1 (\<lambda>slice. Some 100) (replicate 1025 (1 / 2))) < 5 \<and>
   (\<exists>r. analisarEntonacao 100000 (\<lambda>slice. Some 100) (replicate 1025 (1 / 2)) = Inr r \<and>
        pitchCount r = Some (3 + 3) \<and> range_val r \<noteq> None \<and> feedback r \<noteq> [])"
proof -
  have s: "analisarEntonacao_samples 100000 (replicate 1025 (1 / 2)) = Inr (replicate 1025 (1 / 2))"
    by (rule loud_samples) simp_all
  have n: "5 \<le> length (analisarEntonacao_pitches (\<lambda>slice. Some 100) (replicate 1025 (1 / 2)))"
    by (simp add: const_pitches)
  have p: "length (phase1 (\<lambda>slice. Some 100) (replicate 1025 (1 / 2))) < 5"
    by (simp add: const_phase1)
  from success_result [OF s n] obtain r
    where r: "analisarEntonacao 100000 (\<lambda>slice. Some 100) (replicate 1025 (1 / 2)) = Inr r"
      and f: "range_val r \<noteq> None" "feedback r \<noteq> []"
        "pitchCount r = Some (length (analisarEntonacao_pitches (\<lambda>slice. Some 100)
            (replicate 1025 (1 / 2))))"
    by (auto simp: Let_def)
  from f(3) have "pitchCount r = Some (3 + 3)" by (simp add: const_pitches)
  with r f s n p show ?thesis by blast
qed

end
